theory Spec2Isabelle
  imports Complex_Main "HOL-Library.Word"
begin

unbundle bit_operations_syntax

section \<open>Numbers, bytes and pixels\<close>

text \<open>
  The program is JavaScript. Its numbers are IEEE doubles; this development keeps
  \<^item> indices, dimensions and counts as \<open>nat\<close> or \<open>int\<close> (the doubles are exact on them
    below \<open>2^53\<close>),
  \<^item> millimetre values, thresholds, scales and ratios as \<open>real\<close>: the rounding error of
    double arithmetic is not modelled, and a double that is NaN or infinite has no
    counterpart (a division by zero, which HOL evaluates to 0, is infinite or NaN in
    the program),
  \<^item> the elements of \<open>Uint8Array\<close>s and \<open>Buffer\<close>s as 8-bit words.
  A read \<open>a[i]\<close> outside a typed array gives \<open>undefined\<close>; it is \<open>None\<close> here.
\<close>

type_synonym byte = "8 word"

definition byte_at :: "byte list \<Rightarrow> int \<Rightarrow> nat option" where
  "byte_at d i = (if 0 \<le> i \<and> i < int (length d) then Some (unat (d ! nat i)) else None)"

text \<open>\<open>Math.round\<close>: the nearest integer, a tie going up.\<close>

definition Math_round :: "real \<Rightarrow> int" where
  "Math_round v = \<lfloor>v + 1 / 2\<rfloor>"

text \<open>
  \<open>const gray = a === 0 ? 255 : Math.round((r + g + b) / 3);\<close>
  with \<open>r, g, b, a\<close> read from the pixel buffer at \<open>i, i+1, i+2, i+3\<close>. A sum with
  \<open>undefined\<close> is NaN, which is \<open>None\<close> here.
\<close>

definition gray_of :: "nat option \<Rightarrow> nat option \<Rightarrow> nat option \<Rightarrow> nat option \<Rightarrow> int option" where
  "gray_of r g b a =
     (if a = Some 0 then Some 255
      else case (r, g, b) of
             (Some r', Some g', Some b') \<Rightarrow> Some (Math_round (real (r' + g' + b') / 3))
           | _ \<Rightarrow> None)"

definition gray_at :: "byte list \<Rightarrow> int \<Rightarrow> int option" where
  "gray_at d i = gray_of (byte_at d i) (byte_at d (i + 1)) (byte_at d (i + 2)) (byte_at d (i + 3))"

text \<open>\<open>gray < threshold\<close>; a comparison with NaN is false.\<close>

definition below :: "int option \<Rightarrow> real \<Rightarrow> bool" where
  "below gray T = (case gray of None \<Rightarrow> False | Some v \<Rightarrow> real_of_int v < T)"

text \<open>The value stored in a mask cell: \<open>gray < threshold ? 1 : 0\<close>.\<close>

definition cell_of :: "int option \<Rightarrow> real \<Rightarrow> byte" where
  "cell_of gray T = (if below gray T then 1 else 0)"

text \<open>The mask builder's decision on one pixel \<open>(R, G, B, A)\<close>.\<close>

definition pixel_foreground :: "byte \<Rightarrow> byte \<Rightarrow> byte \<Rightarrow> byte \<Rightarrow> real \<Rightarrow> bool" where
  "pixel_foreground r g b a T =
     below (gray_of (Some (unat r)) (Some (unat g)) (Some (unat b)) (Some (unat a))) T"

section \<open>Mask builder\<close>

text \<open>
  The mask loops of the program have one shape:
  \<^verbatim>\<open>
  mask = new Uint8Array(w * h);
  for (let y = 0; y < h; y++)
    for (let x = 0; x < w; x++)
      mask[y * w + x] = <value at (x, y)>;
  \<close>
\<close>

definition fill_row :: "nat \<Rightarrow> (nat \<Rightarrow> nat \<Rightarrow> byte) \<Rightarrow> byte list \<Rightarrow> nat \<Rightarrow> byte list" where
  "fill_row w v msk y = foldl (\<lambda>m x. m[y * w + x := v x y]) msk [0..<w]"

definition fill_mask :: "nat \<Rightarrow> nat \<Rightarrow> (nat \<Rightarrow> nat \<Rightarrow> byte) \<Rightarrow> byte list" where
  "fill_mask w h v = foldl (fill_row w v) (replicate (w * h) 0) [0..<h]"

text \<open>
  \<open>createMask\<close> of \<open>public/png-to-stl.js\<close>, and the same loop in \<open>generate\<close>
  (\<open>index.js\<close>, the branch without downsampling):
  \<^verbatim>\<open>
  const i = (y * width + x) * 4;
  const r = data[i]; const g = data[i + 1]; const b = data[i + 2]; const a = data[i + 3];
  const gray = a === 0 ? 255 : Math.round((r + g + b) / 3);
  mask[y * width + x] = gray < threshold ? 1 : 0;
  \<close>
\<close>

definition createMask :: "byte list \<Rightarrow> nat \<Rightarrow> nat \<Rightarrow> real \<Rightarrow> byte list" where
  "createMask pdata w h T =
     fill_mask w h (\<lambda>x y. cell_of (gray_at pdata ((int y * int w + int x) * 4)) T)"

section \<open>Resampler\<close>

text \<open>
  The downsampling branch of \<open>generate\<close> (\<open>index.js\<close>):
  \<^verbatim>\<open>
  const maxPx = Math.max(1, Math.floor(options.max_px));
  const scaleRatio = maxPx / Math.max(origW, origH);
  maskW = Math.max(1, Math.round(origW * scaleRatio));
  maskH = Math.max(1, Math.round(origH * scaleRatio));
  ...
  const srcX = Math.min(origW - 1, Math.floor(x2 * origW / maskW));
  const srcY = Math.min(origH - 1, Math.floor(y2 * origH / maskH));
  const i = (srcY * origW + srcX) * 4;
  \<close>
\<close>

definition resample_dim :: "nat \<Rightarrow> nat \<Rightarrow> nat \<Rightarrow> real \<Rightarrow> nat" where
  "resample_dim d origW origH max_px =
     (let maxPx = max 1 \<lfloor>max_px\<rfloor>;
          scaleRatio = real_of_int maxPx / real (max origW origH)
      in nat (max 1 (Math_round (real d * scaleRatio))))"

definition src_coord :: "nat \<Rightarrow> nat \<Rightarrow> nat \<Rightarrow> int" where
  "src_coord orig msk c = min (int orig - 1) \<lfloor>real (c * orig) / real msk\<rfloor>"

definition downsample :: "byte list \<Rightarrow> nat \<Rightarrow> nat \<Rightarrow> real \<Rightarrow> real \<Rightarrow> byte list \<times> nat \<times> nat" where
  "downsample pdata origW origH T max_px =
     (let maskW = resample_dim origW origW origH max_px;
          maskH = resample_dim origH origW origH max_px
      in (fill_mask maskW maskH
            (\<lambda>x2 y2. cell_of (gray_at pdata
                 ((src_coord origH maskH y2 * int origW + src_coord origW maskW x2) * 4)) T),
          maskW, maskH))"

section \<open>Size estimator\<close>

text \<open>
  \<open>estimateMaxPxFromTargetMB\<close> of \<open>public/png-to-stl.js\<close>, and the same computation
  inline in \<open>generate\<close>. The counting loop:
  \<^verbatim>\<open>
  let blackCount = 0;
  for (let y = 0; y < height; y++)
    for (let x = 0; x < width; x++) {
      ... const gray = a === 0 ? 255 : Math.round((r + g + b) / 3);
      if (gray < threshold) blackCount++;
    }
  \<close>
\<close>

definition count_black :: "byte list \<Rightarrow> nat \<Rightarrow> nat \<Rightarrow> real \<Rightarrow> nat" where
  "count_black pdata w h T =
     foldl (\<lambda>c y. foldl (\<lambda>c x.
              if below (gray_at pdata ((int y * int w + int x) * 4)) T then c + 1 else c)
            c [0..<w])
       0 [0..<h]"

definition estimateMaxPxFromTargetMB :: "byte list \<Rightarrow> nat \<Rightarrow> nat \<Rightarrow> real \<Rightarrow> real \<Rightarrow> int" where
  "estimateMaxPxFromTargetMB pdata w h T targetMB =
     (let targetBytes = max 1 \<lfloor>targetMB * 1024 * 1024\<rfloor>;
          desiredTri = max 1 \<lfloor>real_of_int (targetBytes - 84) / 50\<rfloor>;
          blackCount = count_black pdata w h T;
          avgTriPerPixel = 6;
          estOrigTriangles = max 1 \<lfloor>real (blackCount * avgTriPerPixel)\<rfloor>
      in if estOrigTriangles \<le> desiredTri then int (max w h)
         else let ratio = real_of_int desiredTri / real_of_int estOrigTriangles;
                  linearScale = sqrt (max (1 / 10 ^ 6) ratio)
              in max 1 \<lfloor>real (max w h) * linearScale\<rfloor>)"

section \<open>Mesh extruder\<close>

type_synonym vertex = "real \<times> real \<times> real"
type_synonym triangle = "vertex \<times> vertex \<times> vertex"

text \<open>
  Both extruders walk the mask row by row and push the triangles of each cell:
  \<^verbatim>\<open>
  for (let y = 0; y < h; y++)
    for (let x = 0; x < w; x++) { ... triangles.push(...) ... }
  \<close>
\<close>

definition scan_cells :: "nat \<Rightarrow> nat \<Rightarrow> (nat \<Rightarrow> nat \<Rightarrow> triangle list) \<Rightarrow> triangle list" where
  "scan_cells w h cell =
     foldl (\<lambda>tris y. foldl (\<lambda>tris x. tris @ cell x y) tris [0..<w]) [] [0..<h]"

text \<open>
  The eight corners of the cell \<open>(x, y)\<close> and the faces pushed from them; the same in
  both files:
  \<^verbatim>\<open>
  const x0 = x * scale;            const x1 = (x + 1) * scale;
  const y0 = (h - y - 1) * scale;  const y1 = (h - y) * scale;
  const c00 = [x0, y0, zTop]; const c10 = [x1, y0, zTop];
  const c11 = [x1, y1, zTop]; const c01 = [x0, y1, zTop];
  const b00 = [x0, y0, zBot]; const b10 = [x1, y0, zBot];
  const b11 = [x1, y1, zBot]; const b01 = [x0, y1, zBot];
  \<close>
  \<open>faces\<close> takes the four side tests in the order of the source: left, right, bottom
  (\<open>y + 1\<close>), top (\<open>y - 1\<close>).
\<close>

definition faces ::
  "nat \<Rightarrow> real \<Rightarrow> real \<Rightarrow> nat \<Rightarrow> nat \<Rightarrow> bool \<Rightarrow> bool \<Rightarrow> bool \<Rightarrow> bool \<Rightarrow> triangle list" where
  "faces h thickness scale x y open_l open_r open_b open_t =
     (let x0 = real x * scale;
          x1 = real (x + 1) * scale;
          y0 = real_of_int (int h - int y - 1) * scale;
          y1 = real_of_int (int h - int y) * scale;
          zTop = thickness;
          zBot = 0;
          c00 = (x0, y0, zTop); c10 = (x1, y0, zTop);
          c11 = (x1, y1, zTop); c01 = (x0, y1, zTop);
          b00 = (x0, y0, zBot); b10 = (x1, y0, zBot);
          b11 = (x1, y1, zBot); b01 = (x0, y1, zBot)
      in [(c01, c11, c10), (c01, c10, c00), (b11, b01, b00), (b11, b00, b10)]
         @ (if open_l then [(c01, b01, b00), (c01, b00, c00)] else [])
         @ (if open_r then [(c10, b10, b11), (c10, b11, c11)] else [])
         @ (if open_b then [(c00, b00, b10), (c00, b10, c10)] else [])
         @ (if open_t then [(c11, b11, b01), (c11, b01, c01)] else []))"

text \<open>
  The extruder of \<open>generate\<close> (\<open>index.js\<close>). \<open>!mask[i]\<close> holds of 0 and of \<open>undefined\<close>.
  \<^verbatim>\<open>
  const idx = (xx, yy) => yy * maskW + xx;
  if (!mask[y * maskW + x]) continue;
  ...
  if (x === 0 || !mask[idx(x - 1, y)]) ...
  if (x === maskW - 1 || !mask[idx(x + 1, y)]) ...
  if (y === maskH - 1 || !mask[idx(x, y + 1)]) ...
  if (y === 0 || !mask[idx(x, y - 1)]) ...
  \<close>
\<close>

definition falsy :: "nat option \<Rightarrow> bool" where
  "falsy v = (v = None \<or> v = Some 0)"

definition idx :: "nat \<Rightarrow> int \<Rightarrow> int \<Rightarrow> int" where
  "idx maskW xx yy = yy * int maskW + xx"

definition cell_node :: "byte list \<Rightarrow> nat \<Rightarrow> nat \<Rightarrow> real \<Rightarrow> real \<Rightarrow> nat \<Rightarrow> nat \<Rightarrow> triangle list" where
  "cell_node msk maskW maskH thickness effectiveScale x y =
     (if falsy (byte_at msk (int y * int maskW + int x)) then []
      else faces maskH thickness effectiveScale x y
             (x = 0 \<or> falsy (byte_at msk (idx maskW (int x - 1) (int y))))
             (int x = int maskW - 1 \<or> falsy (byte_at msk (idx maskW (int x + 1) (int y))))
             (int y = int maskH - 1 \<or> falsy (byte_at msk (idx maskW (int x) (int y + 1))))
             (y = 0 \<or> falsy (byte_at msk (idx maskW (int x) (int y - 1)))))"

definition extrude :: "byte list \<Rightarrow> nat \<Rightarrow> nat \<Rightarrow> real \<Rightarrow> real \<Rightarrow> triangle list" where
  "extrude msk maskW maskH thickness effectiveScale =
     scan_cells maskW maskH (cell_node msk maskW maskH thickness effectiveScale)"

text \<open>
  \<open>generateTriangles\<close> of \<open>public/png-to-stl.js\<close>:
  \<^verbatim>\<open>
  const idx = (x, y) => {
    if (x < 0 || x >= width || y < 0 || y >= height) return false;
    return mask[y * width + x] === 1;
  };
  if (!idx(x, y)) continue;
  ...
  if (!idx(x - 1, y)) ...  if (!idx(x + 1, y)) ...
  if (!idx(x, y + 1)) ...  if (!idx(x, y - 1)) ...
  \<close>
\<close>

definition idx_browser :: "byte list \<Rightarrow> nat \<Rightarrow> nat \<Rightarrow> int \<Rightarrow> int \<Rightarrow> bool" where
  "idx_browser msk w h x y =
     (if x < 0 \<or> x \<ge> int w \<or> y < 0 \<or> y \<ge> int h then False
      else byte_at msk (y * int w + x) = Some 1)"

definition cell_browser :: "byte list \<Rightarrow> nat \<Rightarrow> nat \<Rightarrow> real \<Rightarrow> real \<Rightarrow> nat \<Rightarrow> nat \<Rightarrow> triangle list" where
  "cell_browser msk w h thickness scale x y =
     (if \<not> idx_browser msk w h (int x) (int y) then []
      else faces h thickness scale x y
             (\<not> idx_browser msk w h (int x - 1) (int y))
             (\<not> idx_browser msk w h (int x + 1) (int y))
             (\<not> idx_browser msk w h (int x) (int y + 1))
             (\<not> idx_browser msk w h (int x) (int y - 1)))"

definition generateTriangles :: "real \<Rightarrow> byte list \<Rightarrow> nat \<Rightarrow> nat \<Rightarrow> real \<Rightarrow> triangle list" where
  "generateTriangles thickness msk w h scale =
     scan_cells w h (cell_browser msk w h thickness scale)"

section \<open>Binary mesh serializer\<close>

text \<open>
  \<open>meshTrianglesToBinarySTL\<close> of \<open>index.js\<close>. A \<open>Buffer\<close> is a list of bytes of fixed
  length. The integer and float writers of Node throw a \<open>RangeError\<close> when the bytes do
  not fit at the offset, or when the integer does not fit its width: \<open>None\<close> here.
\<close>

fun le_bytes :: "nat \<Rightarrow> nat \<Rightarrow> byte list" where
  "le_bytes 0 v = []"
| "le_bytes (Suc n) v = word_of_nat (v mod 256) # le_bytes n (v div 256)"

definition write_at :: "byte list \<Rightarrow> nat \<Rightarrow> byte list \<Rightarrow> byte list option" where
  "write_at buf offset bs =
     (if offset + length bs \<le> length buf
      then Some (take offset buf @ bs @ drop (offset + length bs) buf)
      else None)"

definition writeUInt32LE :: "byte list \<Rightarrow> nat \<Rightarrow> nat \<Rightarrow> byte list option" where
  "writeUInt32LE buf v offset = (if v < 2 ^ 32 then write_at buf offset (le_bytes 4 v) else None)"

definition writeUInt16LE :: "byte list \<Rightarrow> nat \<Rightarrow> nat \<Rightarrow> byte list option" where
  "writeUInt16LE buf v offset = (if v < 2 ^ 16 then write_at buf offset (le_bytes 2 v) else None)"

text \<open>
  \<open>writeFloatLE\<close> stores the IEEE 754 binary32 number nearest to the value (a tie goes to
  the even significand), as four bytes, lowest first. \<open>f32_bits\<close> is its bit pattern:
  sign, 8 bits of biased exponent, 23 bits of fraction. With \<open>e\<close> the exponent of the
  value (at least \<open>-126\<close>, where the subnormal numbers start) and \<open>m\<close> the value in units
  of \<open>2^(e - 23)\<close>, rounded, the pattern below the sign is \<open>(e + 126) * 2^23 + m\<close>: a
  significand rounded up to \<open>2^24\<close> carries into the exponent. A magnitude that rounds
  past the largest finite number is stored as infinity, \<open>0x7F800000\<close>.
\<close>

definition round_half_even :: "real \<Rightarrow> int" where
  "round_half_even v =
     (let f = \<lfloor>v\<rfloor>; d = v - real_of_int f
      in if d < 1 / 2 then f else if 1 / 2 < d then f + 1 else if even f then f else f + 1)"

definition f32_exponent :: "real \<Rightarrow> int" where
  "f32_exponent a = max (- 126) \<lfloor>log 2 a\<rfloor>"

definition f32_bits :: "real \<Rightarrow> nat" where
  "f32_bits v =
     (let a = \<bar>v\<bar>;
          sign = (if v < 0 then 2 ^ 31 else 0)
      in if a = 0 then 0
         else let e = f32_exponent a;
                  m = round_half_even (a * 2 powi (23 - e))
              in sign + min (nat ((e + 126) * 2 ^ 23 + m)) 0x7F800000)"

definition writeFloatLE :: "byte list \<Rightarrow> real \<Rightarrow> nat \<Rightarrow> byte list option" where
  "writeFloatLE buf v offset = write_at buf offset (le_bytes 4 (f32_bits v))"

text \<open>
  The header: \<open>header = Buffer.alloc(80); header.write(name.substring(0, 80));\<close>
  A JavaScript string is a list of UTF-16 code units. \<open>Buffer.write\<close> encodes it as UTF-8
  (a surrogate without its partner becomes U+FFFD) and stores the characters that fit
  whole.
\<close>

definition utf8_cp :: "nat \<Rightarrow> byte list" where
  "utf8_cp c =
     (if c < 0x80 then [word_of_nat c]
      else if c < 0x800 then [word_of_nat (0xC0 + c div 64), word_of_nat (0x80 + c mod 64)]
      else if c < 0x10000 then
        [word_of_nat (0xE0 + c div 4096), word_of_nat (0x80 + c div 64 mod 64),
         word_of_nat (0x80 + c mod 64)]
      else
        [word_of_nat (0xF0 + c div 262144), word_of_nat (0x80 + c div 4096 mod 64),
         word_of_nat (0x80 + c div 64 mod 64), word_of_nat (0x80 + c mod 64)])"

definition high_surrogate :: "16 word \<Rightarrow> bool" where
  "high_surrogate u = (0xD800 \<le> unat u \<and> unat u < 0xDC00)"

definition low_surrogate :: "16 word \<Rightarrow> bool" where
  "low_surrogate u = (0xDC00 \<le> unat u \<and> unat u < 0xE000)"

fun utf8_chars :: "16 word list \<Rightarrow> byte list list" where
  "utf8_chars [] = []"
| "utf8_chars (u # us) =
     (if high_surrogate u then
        (case us of
           l # rest \<Rightarrow>
             if low_surrogate l
             then utf8_cp (0x10000 + (unat u - 0xD800) * 0x400 + (unat l - 0xDC00)) # utf8_chars rest
             else utf8_cp 0xFFFD # utf8_chars us
         | [] \<Rightarrow> [utf8_cp 0xFFFD])
      else if low_surrogate u then utf8_cp 0xFFFD # utf8_chars us
      else utf8_cp (unat u) # utf8_chars us)"

fun whole_chars :: "byte list list \<Rightarrow> nat \<Rightarrow> byte list" where
  "whole_chars [] room = []"
| "whole_chars (c # cs) room =
     (if length c \<le> room then c @ whole_chars cs (room - length c) else [])"

definition Buffer_write :: "byte list \<Rightarrow> 16 word list \<Rightarrow> byte list" where
  "Buffer_write buf s =
     (let bs = whole_chars (utf8_chars s) (length buf) in bs @ drop (length bs) buf)"

definition stl_header :: "16 word list \<Rightarrow> byte list" where
  "stl_header name = Buffer_write (replicate 80 0) (take 80 name)"

text \<open>\<open>header.copy(buf, 0)\<close>: as much of the header as the target holds.\<close>

definition Buffer_copy :: "byte list \<Rightarrow> byte list \<Rightarrow> byte list" where
  "Buffer_copy src target = take (length target) src @ drop (length src) target"

text \<open>
  The normal of a triangle, in \<open>meshTrianglesToBinarySTL\<close> and in \<open>trianglesToBinarySTL\<close>
  of \<open>public/png-to-stl.js\<close>:
  \<^verbatim>\<open>
  const ux = v1[0] - v0[0]; const uy = v1[1] - v0[1]; const uz = v1[2] - v0[2];
  const vx = v2[0] - v0[0]; const vy = v2[1] - v0[1]; const vz = v2[2] - v0[2];
  const nx = uy * vz - uz * vy;
  const ny = uz * vx - ux * vz;
  const nz = ux * vy - uy * vx;
  const nl = Math.sqrt(nx * nx + ny * ny + nz * nz) || 1;
  \<close>
  and the numbers written are \<open>nx / nl\<close>, \<open>ny / nl\<close>, \<open>nz / nl\<close>.
\<close>

definition cross :: "triangle \<Rightarrow> vertex" where
  "cross tri =
     (case tri of ((x0, y0, z0), (x1, y1, z1), (x2, y2, z2)) \<Rightarrow>
        let ux = x1 - x0; uy = y1 - y0; uz = z1 - z0;
            vx = x2 - x0; vy = y2 - y0; vz = z2 - z0
        in (uy * vz - uz * vy, uz * vx - ux * vz, ux * vy - uy * vx))"

definition normal_length :: "triangle \<Rightarrow> real" where
  "normal_length tri =
     (case cross tri of (nx, ny, nz) \<Rightarrow>
        let l = sqrt (nx * nx + ny * ny + nz * nz) in if l = 0 then 1 else l)"

definition written_normal :: "triangle \<Rightarrow> vertex" where
  "written_normal tri =
     (case cross tri of (nx, ny, nz) \<Rightarrow>
        let nl = normal_length tri in (nx / nl, ny / nl, nz / nl))"

text \<open>
  The loop over the triangles carries the buffer and the offset:
  \<^verbatim>\<open>
  buf.writeFloatLE(nx / nl, offset); offset += 4;
  buf.writeFloatLE(ny / nl, offset); offset += 4;
  buf.writeFloatLE(nz / nl, offset); offset += 4;
  for (const v of [v0, v1, v2]) {
    buf.writeFloatLE(v[0], offset); offset += 4;
    buf.writeFloatLE(v[1], offset); offset += 4;
    buf.writeFloatLE(v[2], offset); offset += 4;
  }
  buf.writeUInt16LE(0, offset); offset += 2;
  \<close>
\<close>

fun write_floats :: "real list \<Rightarrow> byte list \<times> nat \<Rightarrow> (byte list \<times> nat) option" where
  "write_floats [] st = Some st"
| "write_floats (v # vs) (buf, offset) =
     (case writeFloatLE buf v offset of
        None \<Rightarrow> None
      | Some buf' \<Rightarrow> write_floats vs (buf', offset + 4))"

fun write_vertices :: "vertex list \<Rightarrow> byte list \<times> nat \<Rightarrow> (byte list \<times> nat) option" where
  "write_vertices [] st = Some st"
| "write_vertices ((x, y, z) # vs) st =
     (case write_floats [x, y, z] st of
        None \<Rightarrow> None
      | Some st' \<Rightarrow> write_vertices vs st')"

definition write_triangle :: "triangle \<Rightarrow> byte list \<times> nat \<Rightarrow> (byte list \<times> nat) option" where
  "write_triangle tri st =
     (case tri of (v0, v1, v2) \<Rightarrow>
      case written_normal tri of (n0, n1, n2) \<Rightarrow>
      case write_floats [n0, n1, n2] st of
        None \<Rightarrow> None
      | Some st1 \<Rightarrow>
          (case write_vertices [v0, v1, v2] st1 of
             None \<Rightarrow> None
           | Some (buf2, offset2) \<Rightarrow>
               (case writeUInt16LE buf2 0 offset2 of
                  None \<Rightarrow> None
                | Some buf3 \<Rightarrow> Some (buf3, offset2 + 2))))"

fun write_triangles :: "triangle list \<Rightarrow> byte list \<times> nat \<Rightarrow> (byte list \<times> nat) option" where
  "write_triangles [] st = Some st"
| "write_triangles (tri # tris) st =
     (case write_triangle tri st of
        None \<Rightarrow> None
      | Some st' \<Rightarrow> write_triangles tris st')"

definition meshTrianglesToBinarySTL :: "triangle list \<Rightarrow> 16 word list \<Rightarrow> byte list option" where
  "meshTrianglesToBinarySTL triangles name =
     (let header = stl_header name;
          triCount = length triangles;
          buf = replicate (80 + 4 + triCount * 50) 0;
          buf1 = Buffer_copy header buf
      in case writeUInt32LE buf1 triCount 80 of
           None \<Rightarrow> None
         | Some buf2 \<Rightarrow> map_option fst (write_triangles triangles (buf2, 84)))"



definition f32_finite :: "nat \<Rightarrow> bool" where
  "f32_finite w = (w div 2 ^ 23 mod 256 \<noteq> 255)"

section \<open>The pipeline\<close>

text \<open>
  \<open>generate(options)\<close> of \<open>index.js\<close>, from the decoded image on: \<open>PNG.sync.read\<close> is a
  library call. The option fields are \<open>None\<close> when absent; \<open>truthy\<close> is the test
  \<open>if (v)\<close> on a number that may be absent. The module variables, the two environment
  variables the function reads and the file system are arguments; the file system is
  returned, changed by \<open>fs.writeFileSync\<close> alone.
\<close>

datatype error = EmptyResult | RangeError

record png_image =
  png_width :: nat
  png_height :: nat
  png_data :: "byte list"

record gen_options =
  opt_output :: "string option"
  opt_thickness :: "real option"
  opt_threshold :: "real option"
  opt_scale :: "real option"
  opt_width_mm :: "real option"
  opt_height_mm :: "real option"
  opt_max_px :: "real option"
  opt_target_size_mb :: "real option"

record module_config =
  OUTPUT :: string
  THICKNESS_MM :: real
  SCALE_MM_PER_PX :: real
  THRESHOLD :: real

record environment =
  env_MAX_PX :: "real option"
  env_TARGET_MB :: "real option"

record report =
  rep_output :: string
  rep_width_mm :: real
  rep_height_mm :: real
  rep_scale_mm_per_px :: real

type_synonym filesystem = "string \<Rightarrow> byte list option"

definition truthy :: "real option \<Rightarrow> bool" where
  "truthy v = (case v of None \<Rightarrow> False | Some r \<Rightarrow> r \<noteq> 0)"

text \<open>
  \<^verbatim>\<open>
  if (options.width_mm) originalScale = options.width_mm / origW;
  else if (options.height_mm) originalScale = options.height_mm / origH;
  else originalScale = SCALE_MM_PER_PX;
  const effectiveScale = originalScale * (origW / maskW);
  \<close>
\<close>

definition original_scale :: "module_config \<Rightarrow> gen_options \<Rightarrow> nat \<Rightarrow> nat \<Rightarrow> real" where
  "original_scale cfg options origW origH =
     (if truthy (opt_width_mm options) then the (opt_width_mm options) / real origW
      else if truthy (opt_height_mm options) then the (opt_height_mm options) / real origH
      else SCALE_MM_PER_PX cfg)"

definition effective_scale :: "module_config \<Rightarrow> gen_options \<Rightarrow> nat \<Rightarrow> nat \<Rightarrow> nat \<Rightarrow> real" where
  "effective_scale cfg options origW origH maskW =
     original_scale cfg options origW origH * (real origW / real maskW)"

text \<open>
  The scale of the report:
  \<^verbatim>\<open>
  let scale = typeof options.scale === 'number' ? options.scale : null;
  if (!scale) {
    if (options.width_mm) scale = options.width_mm / origW;
    else if (options.height_mm) scale = options.height_mm / origH;
    else scale = SCALE_MM_PER_PX;
  }
  \<close>
\<close>

definition report_scale :: "module_config \<Rightarrow> gen_options \<Rightarrow> nat \<Rightarrow> nat \<Rightarrow> real" where
  "report_scale cfg options origW origH =
     (if truthy (opt_scale options) then the (opt_scale options)
      else original_scale cfg options origW origH)"

text \<open>
  The pixel budget \<open>options.max_px\<close> after the two blocks that may set it:
  \<^verbatim>\<open>
  if (options.target_size_mb && Number.isFinite(options.target_size_mb) && !options.max_px) {
    ... options.max_px = <the estimate> ...
  }
  if (!options.max_px && !options.target_size_mb) {
    const envMax = process.env._MAX_PX ? parseInt(process.env._MAX_PX, 10) : null;
    const envTarget = process.env._TARGET_MB ? parseFloat(process.env._TARGET_MB) : null;
    if (envMax) options.max_px = envMax;
    else if (envTarget) options.target_size_mb = envTarget;
    else options.max_px = 400;
  }
  \<close>
\<close>

definition pixel_budget ::
  "environment \<Rightarrow> gen_options \<Rightarrow> byte list \<Rightarrow> nat \<Rightarrow> nat \<Rightarrow> real \<Rightarrow> real option" where
  "pixel_budget env options pdata origW origH threshold =
     (let max_px1 =
            (if truthy (opt_target_size_mb options) \<and> \<not> truthy (opt_max_px options)
             then Some (real_of_int (estimateMaxPxFromTargetMB pdata origW origH threshold
                                       (the (opt_target_size_mb options))))
             else opt_max_px options)
      in if \<not> truthy max_px1 \<and> \<not> truthy (opt_target_size_mb options)
         then (if truthy (env_MAX_PX env) then env_MAX_PX env
               else if truthy (env_TARGET_MB env) then max_px1
               else Some 400)
         else max_px1)"

text \<open>
  The mask and its dimensions:
  \<^verbatim>\<open>
  if (options.max_px && Number.isFinite(options.max_px)
      && Math.max(origW, origH) > options.max_px) { <downsample> }
  else { <mask at the original resolution> }
  \<close>
\<close>

definition mask_stage ::
  "byte list \<Rightarrow> nat \<Rightarrow> nat \<Rightarrow> real \<Rightarrow> real option \<Rightarrow> byte list \<times> nat \<times> nat" where
  "mask_stage pdata origW origH threshold max_px =
     (if truthy max_px \<and> real (max origW origH) > the max_px
      then downsample pdata origW origH threshold (the max_px)
      else (createMask pdata origW origH threshold, origW, origH))"

definition generate_mask ::
  "module_config \<Rightarrow> environment \<Rightarrow> png_image \<Rightarrow> gen_options \<Rightarrow> byte list \<times> nat \<times> nat" where
  "generate_mask cfg env png options =
     (let threshold = (case opt_threshold options of Some t \<Rightarrow> t | None \<Rightarrow> THRESHOLD cfg);
          origW = png_width png; origH = png_height png; pdata = png_data png
      in mask_stage pdata origW origH threshold
           (pixel_budget env options pdata origW origH threshold))"

definition generate_triangles ::
  "module_config \<Rightarrow> environment \<Rightarrow> png_image \<Rightarrow> gen_options \<Rightarrow> triangle list" where
  "generate_triangles cfg env png options =
     (case generate_mask cfg env png options of (msk, maskW, maskH) \<Rightarrow>
        let thickness = (case opt_thickness options of Some t \<Rightarrow> t | None \<Rightarrow> THICKNESS_MM cfg);
            effectiveScale =
              effective_scale cfg options (png_width png) (png_height png) maskW
        in extrude msk maskW maskH thickness effectiveScale)"

text \<open>
  The end of \<open>generate\<close>:
  \<^verbatim>\<open>
  if (triangles.length === 0) throw new Error('No black regions detected');
  const bufferOut = meshTrianglesToBinarySTL(triangles, 'extruded');
  fs.writeFileSync(outputPath, bufferOut);
  return { output: outputPath, width_mm: origW * scale, height_mm: origH * scale,
           scale_mm_per_px: scale };
  \<close>
\<close>

definition extruded_name :: "16 word list" where
  "extruded_name = [0x65, 0x78, 0x74, 0x72, 0x75, 0x64, 0x65, 0x64]"

definition generate ::
  "module_config \<Rightarrow> environment \<Rightarrow> filesystem \<Rightarrow> png_image \<Rightarrow> gen_options
     \<Rightarrow> (error + report) \<times> filesystem" where
  "generate cfg env files png options =
     (let outputPath = (case opt_output options of
                          Some p \<Rightarrow> if p = [] then OUTPUT cfg else p
                        | None \<Rightarrow> OUTPUT cfg);
          origW = png_width png; origH = png_height png;
          scale = report_scale cfg options origW origH;
          triangles = generate_triangles cfg env png options
      in if length triangles = 0 then (Inl EmptyResult, files)
         else case meshTrianglesToBinarySTL triangles extruded_name of
                None \<Rightarrow> (Inl RangeError, files)
              | Some bufferOut \<Rightarrow>
                  (Inr \<lparr>rep_output = outputPath, rep_width_mm = real origW * scale,
                        rep_height_mm = real origH * scale, rep_scale_mm_per_px = scale\<rparr>,
                   files(outputPath \<mapsto> bufferOut)))"


text \<open>The module variables as \<open>index.js\<close> initialises them, and an empty environment.\<close>

definition default_config :: module_config where
  "default_config =
     \<lparr>OUTPUT = ''output.stl'', THICKNESS_MM = 2, SCALE_MM_PER_PX = 2645833333 / 10 ^ 10,
      THRESHOLD = 128\<rparr>"

definition no_env :: environment where
  "no_env = \<lparr>env_MAX_PX = None, env_TARGET_MB = None\<rparr>"

definition no_options :: gen_options where
  "no_options =
     \<lparr>opt_output = None, opt_thickness = None, opt_threshold = None, opt_scale = None,
      opt_width_mm = None, opt_height_mm = None, opt_max_px = None,
      opt_target_size_mb = None\<rparr>"

text \<open>
  An input for the height-driven scale: an opaque black image, 1 pixel wide and 4 high,
  with \<open>height_mm = 40\<close> and \<open>max_px = 2\<close>.
\<close>

definition tall_image :: png_image where
  "tall_image =
     \<lparr>png_width = 1, png_height = 4,
      png_data = [0, 0, 0, 255, 0, 0, 0, 255, 0, 0, 0, 255, 0, 0, 0, 255]\<rparr>"

definition tall_options :: gen_options where
  "tall_options = no_options\<lparr>opt_height_mm := Some 40, opt_max_px := Some 2\<rparr>"

section \<open>The specification's wording, for comparison\<close>



text \<open>
  The binary layout as the specification words it: the 80 bytes of the header, the
  triangle count as 4 bytes, and one record of 50 bytes for each triangle: the three
  components of the normal, the nine coordinates of \<open>v0, v1, v2\<close>, each a binary32 number
  of 4 bytes, and 2 bytes of zero.
\<close>

definition f32_le :: "real \<Rightarrow> byte list" where
  "f32_le v = le_bytes 4 (f32_bits v)"

definition coordinates :: "triangle \<Rightarrow> real list" where
  "coordinates tri =
     (case tri of ((x0, y0, z0), (x1, y1, z1), (x2, y2, z2)) \<Rightarrow>
        [x0, y0, z0, x1, y1, z1, x2, y2, z2])"

definition stl_record :: "triangle \<Rightarrow> byte list" where
  "stl_record tri =
     (case written_normal tri of (n0, n1, n2) \<Rightarrow>
        f32_le n0 @ f32_le n1 @ f32_le n2 @ concat (map f32_le (coordinates tri)) @ [0, 0])"

definition stl_layout :: "16 word list \<Rightarrow> triangle list \<Rightarrow> byte list" where
  "stl_layout name tris =
     stl_header name @ le_bytes 4 (length tris) @ concat (map stl_record tris)"



section \<open>Facts about the mask loops\<close>

lemma length_fill_row: "length (fill_row w v m y) = length m"
proof -
  have "length (foldl (\<lambda>m x. m[y * w + x := v x y]) m xs) = length m" for xs
    by (induction xs arbitrary: m) simp_all
  then show ?thesis by (simp add: fill_row_def)
qed

lemma fill_row_upto:
  "k < length m \<Longrightarrow>
   foldl (\<lambda>m x. m[y * w + x := v x y]) m [0..<n] ! k =
     (if y * w \<le> k \<and> k < y * w + n then v (k - y * w) y else m ! k)"
proof (induction n)
  case 0
  then show ?case by auto
next
  case (Suc n)
  have len: "length (foldl (\<lambda>m x. m[y * w + x := v x y]) m [0..<n]) = length m"
    by (induction n) simp_all
  show ?case
  proof (cases "k = y * w + n")
    case True
    then show ?thesis using len Suc.prems by simp
  next
    case False
    then have "k < y * w + Suc n \<longleftrightarrow> k < y * w + n" by arith
    then show ?thesis using Suc False by simp
  qed
qed

lemma nth_fill_row:
  "k < length m \<Longrightarrow>
   fill_row w v m y ! k = (if y * w \<le> k \<and> k < y * w + w then v (k - y * w) y else m ! k)"
  by (simp add: fill_row_def fill_row_upto)

lemma length_fill_rows: "length (foldl (fill_row w v) m ys) = length m"
  by (induction ys arbitrary: m) (simp_all add: length_fill_row)

lemma row_index:
  fixes y w k :: nat
  assumes "y * w \<le> k" "k < y * w + w"
  shows "k div w = y" and "k mod w = k - y * w"
proof -
  from assms have w: "0 < w" by (cases w) auto
  define r where "r = k - y * w"
  with assms have r: "k = y * w + r" "r < w" by simp_all
  from r w show "k div w = y" by simp
  from r w show "k mod w = k - y * w" by simp
qed

lemma fill_rows_upto:
  "k < length m \<Longrightarrow>
   foldl (fill_row w v) m [0..<n] ! k = (if k < n * w then v (k mod w) (k div w) else m ! k)"
proof (induction n)
  case 0
  then show ?case by simp
next
  case (Suc n)
  let ?m = "foldl (fill_row w v) m [0..<n]"
  have len: "length ?m = length m" by (rule length_fill_rows)
  show ?case
  proof (cases "n * w \<le> k \<and> k < n * w + w")
    case True
    then have "k div w = n" "k mod w = k - n * w" by (simp_all add: row_index)
    with True Suc.prems show ?thesis by (simp add: nth_fill_row len)
  next
    case False
    then have "k < Suc n * w \<longleftrightarrow> k < n * w" by auto
    with False Suc show ?thesis by (simp add: nth_fill_row len)
  qed
qed

lemma length_fill_mask: "length (fill_mask w h v) = w * h"
  by (simp add: fill_mask_def length_fill_rows)

lemma cell_index_less:
  fixes x y w h :: nat
  assumes "x < w" "y < h"
  shows "y * w + x < h * w"
proof -
  from assms have "y * w + x < y * w + w" by simp
  also have "\<dots> = Suc y * w" by simp
  also from assms have "\<dots> \<le> h * w" by (intro mult_le_mono1) simp
  finally show ?thesis .
qed

lemma nth_fill_mask:
  assumes "x < w" "y < h"
  shows "fill_mask w h v ! (y * w + x) = v x y"
proof -
  from assms have "y * w + x < h * w" by (rule cell_index_less)
  then show ?thesis using assms
    by (simp add: fill_mask_def fill_rows_upto mult.commute)
qed


lemma byte_at_nat: "byte_at d (int i) = (if i < length d then Some (unat (d ! i)) else None)"
  by (simp add: byte_at_def)

lemma Math_round_eq_round: "Math_round v = round v"
  by (simp add: Math_round_def round_def)

lemma gray_of_Some:
  "gray_of (Some r) (Some g) (Some b) (Some a) =
     Some (if a = 0 then 255 else round (real (r + g + b) / 3))"
  by (simp add: gray_of_def Math_round_eq_round)

lemma gray_at_in_range:
  assumes "i + 3 < length d"
  shows "gray_at d (int i) =
     Some (if d ! (i + 3) = 0 then 255
           else round (real (unat (d ! i) + unat (d ! (i + 1)) + unat (d ! (i + 2))) / 3))"
proof -
  have "int i + 1 = int (i + 1)" "int i + 2 = int (i + 2)" "int i + 3 = int (i + 3)"
    by simp_all
  then have "gray_at d (int i) =
      gray_of (Some (unat (d ! i))) (Some (unat (d ! (i + 1)))) (Some (unat (d ! (i + 2))))
        (Some (unat (d ! (i + 3))))"
    using assms unfolding gray_at_def by (simp only: byte_at_nat) simp
  then show ?thesis by (simp add: gray_of_Some unat_eq_0)
qed

lemma pixel_index:
  fixes x y w h :: nat
  assumes "x < w" "y < h"
  shows "(y * w + x) * 4 + 3 < 4 * w * h"
proof -
  from assms have "y * w + x < h * w" by (rule cell_index_less)
  then have "(y * w + x) * 4 + 3 < h * w * 4" by arith
  also have "h * w * 4 = 4 * w * h" by simp
  finally show ?thesis .
qed

lemma cell_of_cases: "cell_of g T = 0 \<or> cell_of g T = 1"
  by (simp add: cell_of_def)

lemma cell_of_eq_1: "cell_of g T = 1 \<longleftrightarrow> below g T"
  by (simp add: cell_of_def)

lemma fill_mask_cells:
  assumes "\<And>x y. v x y = 0 \<or> v x y = 1"
  shows "\<forall>b \<in> set (fill_mask w h v). b = 0 \<or> b = 1"
proof -
  have "b = 0 \<or> b = 1" if "b \<in> set (fill_mask w h v)" for b
  proof -
    from that obtain k where k: "k < w * h" "b = fill_mask w h v ! k"
      by (auto simp: in_set_conv_nth length_fill_mask)
    then have "k < length (replicate (w * h) (0::byte))" by simp
    then have "fill_mask w h v ! k =
        (if k < h * w then v (k mod w) (k div w) else replicate (w * h) 0 ! k)"
      unfolding fill_mask_def by (rule fill_rows_upto)
    with k assms show ?thesis by (auto simp: mult.commute)
  qed
  then show ?thesis by blast
qed

lemma createMask_cell:
  assumes "x < w" "y < h" "length pdata = 4 * w * h"
  shows "createMask pdata w h T ! (y * w + x) =
     cell_of (Some (if pdata ! ((y * w + x) * 4 + 3) = 0 then 255
                    else round (real (unat (pdata ! ((y * w + x) * 4))
                                      + unat (pdata ! ((y * w + x) * 4 + 1))
                                      + unat (pdata ! ((y * w + x) * 4 + 2))) / 3))) T"
proof -
  have i: "(int y * int w + int x) * 4 = int ((y * w + x) * 4)" by simp
  from pixel_index[OF assms(1,2)] assms(3) have "(y * w + x) * 4 + 3 < length pdata"
    by (simp only:)
  then show ?thesis using assms(1,2)
    unfolding createMask_def by (simp only: nth_fill_mask i gray_at_in_range)
qed

section \<open>Facts about the cell scan\<close>

lemma foldl_push: "foldl (\<lambda>tris x. tris @ f x) acc xs = acc @ concat (map f xs)"
  by (induction xs arbitrary: acc) simp_all

lemma scan_cells_concat:
  "scan_cells w h cell = concat (map (\<lambda>y. concat (map (\<lambda>x. cell x y) [0..<w])) [0..<h])"
proof -
  have "foldl (\<lambda>tris y. foldl (\<lambda>tris x. tris @ cell x y) tris [0..<w]) acc ys =
        acc @ concat (map (\<lambda>y. concat (map (\<lambda>x. cell x y) [0..<w])) ys)" for acc ys
    by (induction ys arbitrary: acc) (simp_all add: foldl_push)
  then show ?thesis by (simp add: scan_cells_def)
qed

lemma scan_cells_cong:
  assumes "\<And>x y. x < w \<Longrightarrow> y < h \<Longrightarrow> f x y = g x y"
  shows "scan_cells w h f = scan_cells w h g"
proof -
  have "concat (map (\<lambda>x. f x y) [0..<w]) = concat (map (\<lambda>x. g x y) [0..<w])" if "y < h" for y
  proof -
    from that assms have "map (\<lambda>x. f x y) [0..<w] = map (\<lambda>x. g x y) [0..<w]" by simp
    then show ?thesis by (rule arg_cong)
  qed
  then have "map (\<lambda>y. concat (map (\<lambda>x. f x y) [0..<w])) [0..<h] =
        map (\<lambda>y. concat (map (\<lambda>x. g x y) [0..<w])) [0..<h]"
    by simp
  then show ?thesis by (simp only: scan_cells_concat)
qed

lemma concat_all_Nil: "(\<And>x. x \<in> set xs \<Longrightarrow> f x = []) \<Longrightarrow> concat (map f xs) = []"
  by (induction xs) simp_all



section \<open>Facts about the counting loop\<close>






section \<open>Facts about the resampler\<close>


lemma truthy_None: "\<not> truthy None"
  by (simp add: truthy_def)

lemma pixel_budget_given:
  "truthy (opt_max_px options) \<Longrightarrow>
   pixel_budget env options pdata origW origH T = opt_max_px options"
  by (simp add: pixel_budget_def)


lemma resample_dim_pos: "0 < resample_dim d W H m"
  by (simp add: resample_dim_def Let_def)



section \<open>Facts about the extruder and the scale\<close>

lemma scan_cells_empty:
  assumes "\<And>x y. x < w \<Longrightarrow> y < h \<Longrightarrow> cell x y = []"
  shows "scan_cells w h cell = []"
proof -
  have "concat (map (\<lambda>x. cell x y) [0..<w]) = []" if "y < h" for y
    using that assms by (intro concat_all_Nil) simp
  then have "concat (map (\<lambda>y. concat (map (\<lambda>x. cell x y) [0..<w])) [0..<h]) = []"
    by (intro concat_all_Nil) simp
  then show ?thesis by (simp only: scan_cells_concat)
qed

lemma extrude_background:
  assumes "\<forall>k<length msk. msk ! k = 0"
  shows "extrude msk w h Z K = []"
proof -
  have "falsy (byte_at msk k)" for k
  proof (cases "0 \<le> k \<and> k < int (length msk)")
    case True
    then have "nat k < length msk" by (simp add: nat_less_iff)
    with assms have "msk ! nat k = 0" by blast
    with True show ?thesis by (simp add: falsy_def byte_at_def)
  next
    case False
    then show ?thesis by (auto simp: falsy_def byte_at_def)
  qed
  then have "cell_node msk w h Z K x y = []" for x y
    by (simp add: cell_node_def)
  then show ?thesis unfolding extrude_def by (intro scan_cells_empty)
qed

lemma effective_scale_width:
  assumes "0 < maskW"
  shows "effective_scale cfg options origW origH maskW * real maskW =
         original_scale cfg options origW origH * real origW"
  using assms by (simp add: effective_scale_def)

section \<open>Facts about the normal\<close>






section \<open>Facts about the buffer writes\<close>

lemma length_le_bytes: "length (le_bytes n v) = n"
  by (induction n arbitrary: v) simp_all



lemma write_at_fits:
  "offset + length bs \<le> length buf \<Longrightarrow>
   write_at buf offset bs = Some (take offset buf @ bs @ drop (offset + length bs) buf)"
  by (simp add: write_at_def)

lemma splice_length:
  "offset + length bs \<le> length buf \<Longrightarrow>
   length (take offset buf @ bs @ drop (offset + length bs) buf) = length buf"
  by simp

lemma splice_take:
  "offset + length bs \<le> length buf \<Longrightarrow>
   take (offset + length bs) (take offset buf @ bs @ drop (offset + length bs) buf) =
     take offset buf @ bs"
  by simp

lemma splice_drop:
  "offset + length bs \<le> length buf \<Longrightarrow>
   drop (offset + length bs + k) (take offset buf @ bs @ drop (offset + length bs) buf) =
     drop (offset + length bs + k) buf"
  by (simp add: add.commute add.left_commute)

lemma length_f32_le: "length (f32_le v) = 4"
  by (simp add: f32_le_def length_le_bytes)

lemma write_floats_fits:
  "offset + 4 * length vs \<le> length buf \<Longrightarrow>
   write_floats vs (buf, offset) =
     Some (take offset buf @ concat (map f32_le vs) @ drop (offset + 4 * length vs) buf,
           offset + 4 * length vs)"
proof (induction vs arbitrary: buf offset)
  case Nil
  then show ?case by simp
next
  case (Cons v vs)
  let ?b = "take offset buf @ f32_le v @ drop (offset + length (f32_le v)) buf"
  from Cons.prems have fit: "offset + length (f32_le v) \<le> length buf"
    by (simp add: length_f32_le)
  then have w: "writeFloatLE buf v offset = Some ?b"
    unfolding writeFloatLE_def f32_le_def[symmetric] by (rule write_at_fits)
  have len: "length ?b = length buf" using fit by (rule splice_length)
  with Cons.prems have "offset + 4 + 4 * length vs \<le> length ?b" by simp
  then have "write_floats vs (?b, offset + 4) =
      Some (take (offset + 4) ?b @ concat (map f32_le vs) @ drop (offset + 4 + 4 * length vs) ?b,
            offset + 4 + 4 * length vs)"
    by (rule Cons.IH)
  moreover have "take (offset + 4) ?b = take offset buf @ f32_le v"
    using splice_take[OF fit] by (simp only: length_f32_le)
  moreover have "drop (offset + 4 + 4 * length vs) ?b = drop (offset + 4 + 4 * length vs) buf"
    using splice_drop[OF fit, of "4 * length vs"] by (simp only: length_f32_le)
  ultimately show ?case using w by (simp add: add.assoc)
qed

lemma write_vertices_floats:
  "write_vertices vs st = write_floats (concat (map (\<lambda>(x, y, z). [x, y, z]) vs)) st"
proof (induction vs arbitrary: st)
  case Nil
  then show ?case by simp
next
  case (Cons v vs)
  obtain x y z where v: "v = (x, y, z)" by (cases v) auto
  obtain buf offset where st: "st = (buf, offset)" by (cases st) auto
  show ?case
    by (simp add: v st Cons.IH split: option.splits)
qed

lemma coordinates_vertices:
  "concat (map (\<lambda>(x, y, z). [x, y, z]) [v0, v1, v2]) = coordinates (v0, v1, v2)"
  by (cases v0; cases v1; cases v2) (simp add: coordinates_def)

lemma length_coordinates: "length (coordinates tri) = 9"
  by (simp add: coordinates_def split: prod.splits)

lemma length_stl_record: "length (stl_record tri) = 50"
proof -
  have "length (concat (map f32_le vs)) = 4 * length vs" for vs
    by (induction vs) (simp_all add: length_f32_le)
  then show ?thesis
    by (simp add: stl_record_def length_f32_le length_coordinates split: prod.splits)
qed

lemma write_floats_append:
  "write_floats (xs @ ys) st =
     (case write_floats xs st of None \<Rightarrow> None | Some st' \<Rightarrow> write_floats ys st')"
proof (induction xs arbitrary: st)
  case Nil
  then show ?case by simp
next
  case (Cons x xs)
  obtain b off where "st = (b, off)" by (cases st) auto
  with Cons show ?case by (simp split: option.splits)
qed

lemma write_triangle_fits:
  assumes "offset + 50 \<le> length buf"
  shows "write_triangle tri (buf, offset) =
     Some (take offset buf @ stl_record tri @ drop (offset + 50) buf, offset + 50)"
proof -
  obtain v0 v1 v2 where tri: "tri = (v0, v1, v2)" by (cases tri) auto
  obtain n0 n1 n2 where n: "written_normal tri = (n0, n1, n2)"
    by (cases "written_normal tri") auto
  define vs where "vs = [n0, n1, n2] @ coordinates tri"
  define fs where "fs = concat (map f32_le vs)"
  define b where "b = take offset buf @ fs @ drop (offset + 48) buf"
  have l: "4 * length vs = 48" by (simp add: vs_def length_coordinates)
  have lc: "length fs = 48"
    by (simp add: fs_def vs_def length_f32_le coordinates_def split: prod.splits)
  from assms have "offset + 4 * length vs \<le> length buf" unfolding l by linarith
  then have "write_floats vs (buf, offset) =
      Some (take offset buf @ concat (map f32_le vs) @ drop (offset + 4 * length vs) buf,
            offset + 4 * length vs)"
    by (rule write_floats_fits)
  then have all: "write_floats vs (buf, offset) = Some (b, offset + 48)"
    unfolding l b_def fs_def .
  have "(case write_floats [n0, n1, n2] (buf, offset) of
           None \<Rightarrow> None
         | Some st1 \<Rightarrow> write_vertices [v0, v1, v2] st1) =
        write_floats vs (buf, offset)"
    unfolding vs_def write_floats_append write_vertices_floats coordinates_vertices tri ..
  with all have body: "(case write_floats [n0, n1, n2] (buf, offset) of
           None \<Rightarrow> None
         | Some st1 \<Rightarrow> write_vertices [v0, v1, v2] st1) = Some (b, offset + 48)"
    by (simp only:)
  have fit': "offset + length fs \<le> length buf" unfolding lc using assms by linarith
  have lb: "length b = length buf"
    using splice_length[OF fit'] unfolding lc b_def .
  have tk: "take (offset + 48) b = take offset buf @ fs"
    using splice_take[OF fit'] unfolding lc b_def .
  have dr: "drop (offset + 48 + 2) b = drop (offset + 48 + 2) buf"
    using splice_drop[OF fit', of 2] unfolding lc b_def .
  have z: "le_bytes 2 0 = [0, 0]" by (simp add: numeral_2_eq_2)
  from assms lb have fit2: "offset + 48 + length [0, 0 :: byte] \<le> length b" by simp
  have "writeUInt16LE b 0 (offset + 48) = write_at b (offset + 48) [0, 0]"
    by (simp add: writeUInt16LE_def z)
  also have "\<dots> = Some (take (offset + 48) b @ [0, 0] @ drop (offset + 48 + length [0, 0 :: byte]) b)"
    using fit2 by (rule write_at_fits)
  also have "\<dots> = Some (take offset buf @ (fs @ [0, 0]) @ drop (offset + 50) buf)"
    using tk dr by (simp add: add.commute)
  also have "fs @ [0, 0] = stl_record tri"
    by (simp add: stl_record_def n fs_def vs_def)
  finally have last: "writeUInt16LE b 0 (offset + 48) =
      Some (take offset buf @ stl_record tri @ drop (offset + 50) buf)" .
  have "write_triangle tri (buf, offset) =
      (case (case write_floats [n0, n1, n2] (buf, offset) of
               None \<Rightarrow> None
             | Some st1 \<Rightarrow> write_vertices [v0, v1, v2] st1) of
         None \<Rightarrow> None
       | Some (buf2, offset2) \<Rightarrow>
           (case writeUInt16LE buf2 0 offset2 of
              None \<Rightarrow> None
            | Some buf3 \<Rightarrow> Some (buf3, offset2 + 2)))"
    unfolding write_triangle_def by (simp add: tri n[unfolded tri] split: option.splits)
  also have "\<dots> = (case writeUInt16LE b 0 (offset + 48) of
              None \<Rightarrow> None
            | Some buf3 \<Rightarrow> Some (buf3, offset + 48 + 2))"
    by (simp only: body option.case prod.case)
  also have "\<dots> = Some (take offset buf @ stl_record tri @ drop (offset + 50) buf, offset + 50)"
    by (simp add: last)
  finally show ?thesis .
qed

lemma write_triangles_fits:
  "offset + 50 * length tris \<le> length buf \<Longrightarrow>
   write_triangles tris (buf, offset) =
     Some (take offset buf @ concat (map stl_record tris) @ drop (offset + 50 * length tris) buf,
           offset + 50 * length tris)"
proof (induction tris arbitrary: buf offset)
  case Nil
  then show ?case by simp
next
  case (Cons tri tris)
  let ?b = "take offset buf @ stl_record tri @ drop (offset + length (stl_record tri)) buf"
  from Cons.prems have fit: "offset + length (stl_record tri) \<le> length buf"
    by (simp add: length_stl_record)
  then have "offset + 50 \<le> length buf" by (simp add: length_stl_record)
  then have w: "write_triangle tri (buf, offset) = Some (?b, offset + 50)"
    by (simp add: write_triangle_fits length_stl_record)
  have len: "length ?b = length buf" using fit by (rule splice_length)
  with Cons.prems have "offset + 50 + 50 * length tris \<le> length ?b" by simp
  then have "write_triangles tris (?b, offset + 50) =
      Some (take (offset + 50) ?b @ concat (map stl_record tris)
              @ drop (offset + 50 + 50 * length tris) ?b,
            offset + 50 + 50 * length tris)"
    by (rule Cons.IH)
  moreover have "take (offset + 50) ?b = take offset buf @ stl_record tri"
    using splice_take[OF fit] by (simp only: length_stl_record)
  moreover have "drop (offset + 50 + 50 * length tris) ?b = drop (offset + 50 + 50 * length tris) buf"
    using splice_drop[OF fit, of "50 * length tris"] by (simp only: length_stl_record)
  ultimately show ?case using w by (simp add: add.assoc)
qed

lemma length_whole_chars: "length (whole_chars cs room) \<le> room"
proof (induction cs arbitrary: room)
  case Nil
  then show ?case by simp
next
  case (Cons c cs)
  show ?case
  proof (cases "length c \<le> room")
    case True
    with Cons.IH[of "room - length c"] show ?thesis by simp
  next
    case False
    then show ?thesis by simp
  qed
qed

lemma length_stl_header: "length (stl_header name) = 80"
proof -
  have "length (whole_chars (utf8_chars (take 80 name)) 80) \<le> 80"
    by (rule length_whole_chars)
  then show ?thesis by (simp add: stl_header_def Buffer_write_def Let_def)
qed

lemma serializer_layout:
  assumes "length tris < 2 ^ 32"
  shows "meshTrianglesToBinarySTL tris name = Some (stl_layout name tris)"
proof -
  let ?n = "length tris"
  let ?buf = "replicate (80 + 4 + ?n * 50) (0::byte)"
  let ?b1 = "stl_header name @ replicate (4 + ?n * 50) (0::byte)"
  let ?b2 = "stl_header name @ le_bytes 4 ?n @ replicate (?n * 50) (0::byte)"
  have copy: "Buffer_copy (stl_header name) ?buf = ?b1"
    by (simp add: Buffer_copy_def length_stl_header)
  have "80 + length (le_bytes 4 ?n) \<le> length ?b1"
    by (simp add: length_stl_header length_le_bytes)
  then have "write_at ?b1 80 (le_bytes 4 ?n) =
      Some (take 80 ?b1 @ le_bytes 4 ?n @ drop (80 + length (le_bytes 4 ?n)) ?b1)"
    by (rule write_at_fits)
  then have count: "writeUInt32LE ?b1 ?n 80 = Some ?b2"
    using assms by (simp add: writeUInt32LE_def length_stl_header length_le_bytes)
  have "84 + 50 * ?n \<le> length ?b2"
    by (simp add: length_stl_header length_le_bytes)
  then have "write_triangles tris (?b2, 84) =
      Some (take 84 ?b2 @ concat (map stl_record tris) @ drop (84 + 50 * ?n) ?b2, 84 + 50 * ?n)"
    by (rule write_triangles_fits)
  then have "write_triangles tris (?b2, 84) = Some (stl_layout name tris, 84 + 50 * ?n)"
    by (simp add: stl_layout_def length_stl_header length_le_bytes)
  with copy count show ?thesis
    by (simp add: meshTrianglesToBinarySTL_def Let_def)
qed

lemma serializer_too_many:
  "\<not> length tris < 2 ^ 32 \<Longrightarrow> meshTrianglesToBinarySTL tris name = None"
  by (simp add: meshTrianglesToBinarySTL_def Let_def writeUInt32LE_def)





section \<open>Facts about binary32 rounding\<close>





lemma two_powr_int: "(2::real) powr real_of_int n = 2 powi n"
  by (simp add: powr_real_of_int power_int_def inverse_eq_divide power_one_over)

lemma floor_log2_bounds:
  assumes "0 < a"
  shows "2 powi \<lfloor>log 2 a\<rfloor> \<le> a" and "a < 2 powi (\<lfloor>log 2 a\<rfloor> + 1)"
proof -
  from assms have "2 powr real_of_int \<lfloor>log 2 a\<rfloor> \<le> a \<and> a < 2 powr real_of_int (\<lfloor>log 2 a\<rfloor> + 1)"
    using floor_log_eq_powr_iff[of a 2 "\<lfloor>log 2 a\<rfloor>"] by simp
  then show "2 powi \<lfloor>log 2 a\<rfloor> \<le> a" and "a < 2 powi (\<lfloor>log 2 a\<rfloor> + 1)"
    by (simp_all only: two_powr_int)
qed

lemma two_powi_less_iff: "(2::real) powi m < 2 powi n \<longleftrightarrow> m < n"
  by (metis linorder_not_less one_less_numeral_iff power_int_increasing
      power_int_strict_increasing semiring_norm(76) less_eq_real_def)


























section \<open>Facts about the layout\<close>







section \<open>Small runs\<close>

lemma white_pixel_mask:
  "generate_mask default_config no_env
     \<lparr>png_width = 1, png_height = 1, png_data = [255, 255, 255, 255]\<rparr> no_options = ([0], 1, 1)"
proof -
  have "generate_mask default_config no_env
          \<lparr>png_width = 1, png_height = 1, png_data = [255, 255, 255, 255]\<rparr> no_options =
        mask_stage [255, 255, 255, 255] 1 1 128 (Some 400)"
    by (simp add: generate_mask_def default_config_def no_options_def no_env_def
        pixel_budget_def truthy_def)
  also have "\<dots> = ([0], 1, 1)" by code_simp
  finally show ?thesis .
qed

lemma f32_exponent_eq:
  assumes "- 126 \<le> e" and "2 powi e \<le> a" and "a < 2 powi (e + 1)"
  shows "f32_exponent a = e"
proof -
  have "(0::real) < 2 powi e" by simp
  with assms(2) have pos: "0 < a" by linarith
  from floor_log2_bounds[OF pos] assms(2,3)
  have "(2::real) powi \<lfloor>log 2 a\<rfloor> < 2 powi (e + 1)" "(2::real) powi e < 2 powi (\<lfloor>log 2 a\<rfloor> + 1)"
    by linarith+
  then have "\<lfloor>log 2 a\<rfloor> < e + 1" "e < \<lfloor>log 2 a\<rfloor> + 1" by (simp_all only: two_powi_less_iff)
  then have "\<lfloor>log 2 a\<rfloor> = e" by linarith
  with assms(1) show ?thesis by (simp add: f32_exponent_def)
qed


lemma f32_bits_overflow: "f32_bits (2 ^ 128) = 0x7F800000" "\<not> f32_finite (f32_bits (2 ^ 128))"
proof -
  have e: "f32_exponent (2 ^ 128) = 128" by (rule f32_exponent_eq; simp)
  from e have e': "f32_exponent 340282366920938463463374607431768211456 = 128" by simp
  show b: "f32_bits (2 ^ 128) = 0x7F800000"
    by (simp add: f32_bits_def e' round_half_even_def)
  show "\<not> f32_finite (f32_bits (2 ^ 128))" unfolding b by (simp add: f32_finite_def)
qed

lemma tall_image_mask:
  "generate_mask default_config no_env tall_image tall_options = ([1, 1], 1, 2)"
proof -
  have "generate_mask default_config no_env tall_image tall_options =
        mask_stage [0, 0, 0, 255, 0, 0, 0, 255, 0, 0, 0, 255, 0, 0, 0, 255] 1 4 128 (Some 2)"
    by (simp add: generate_mask_def default_config_def tall_image_def tall_options_def
        no_options_def pixel_budget_def truthy_def)
  also have "\<dots> = ([1, 1], 1, 2)" by code_simp
  finally show ?thesis .
qed

lemma tall_image_scales:
  "original_scale default_config tall_options 1 4 = 10"
  "effective_scale default_config tall_options 1 4 1 = 10"
  "report_scale default_config tall_options 1 4 = 10"
  by (simp_all add: effective_scale_def original_scale_def report_scale_def tall_options_def
      no_options_def truthy_def)

lemma tall_image_triangles:
  "generate_triangles default_config no_env tall_image tall_options = extrude [1, 1] 1 2 2 10"
proof -
  have w: "png_width tall_image = 1" "png_height tall_image = 4"
    by (simp_all add: tall_image_def)
  have th: "(case opt_thickness tall_options of Some t \<Rightarrow> t | None \<Rightarrow> THICKNESS_MM default_config) = 2"
    by (simp add: tall_options_def no_options_def default_config_def)
  show ?thesis
    unfolding generate_triangles_def
    by (simp only: tall_image_mask prod.case Let_def w tall_image_scales th)
qed

lemma tall_image_extrusion:
  "length (extrude [1, 1] 1 2 2 10) = 20"
  "extrude [1, 1] 1 2 2 10 ! 0 = ((0, 20, 2), (10, 20, 2), (10, 10, 2))"
  by code_simp+

section \<open>Claims\<close>

text \<open>
  C9 (threshold monotonicity). For a fixed pixel \<open>(R, G, B, A)\<close> and thresholds \<open>T \<le> T'\<close>:
  if the mask builder marks the pixel foreground at \<open>T\<close>, it marks it foreground at \<open>T'\<close>.
  Raising the threshold never turns a foreground cell into background.
\<close>

theorem threshold_monotone:
  assumes "pixel_foreground r g b a T" and "T \<le> T'"
  shows "pixel_foreground r g b a T'"
  using assms by (auto simp: pixel_foreground_def below_def split: option.splits)

theorem threshold_monotone_witness:
  "pixel_foreground 10 20 30 255 128 \<and> (128::real) \<le> 200 \<and> pixel_foreground 10 20 30 255 200"
proof -
  have fg: "pixel_foreground 10 20 30 255 128"
    by (simp add: pixel_foreground_def below_def gray_of_Some)
  have le: "(128::real) \<le> 200" by simp
  from threshold_monotone[OF fg le] fg le show ?thesis by simp
qed

text \<open>
  C2 (mask builder). For a pixel buffer of width \<open>w\<close> and height \<open>h\<close> (four bytes per
  pixel) and a threshold \<open>T\<close>, the mask has \<open>w * h\<close> cells, and the cell of pixel \<open>(x, y)\<close>
  is 1 (foreground) if \<open>gray < T\<close> and 0 otherwise, where \<open>gray\<close> is 255 when the alpha
  byte is 0 and the nearest integer to \<open>(R + G + B) / 3\<close> otherwise. The mask is a function
  of the buffer, its dimensions and \<open>T\<close> alone.
\<close>

theorem mask_builder_cells:
  assumes "length pdata = 4 * w * h"
  shows "length (createMask pdata w h T) = w * h \<and>
    (\<forall>x<w. \<forall>y<h.
       let i = (y * w + x) * 4;
           gray = (if pdata ! (i + 3) = 0 then 255
                   else round (real (unat (pdata ! i) + unat (pdata ! (i + 1))
                                     + unat (pdata ! (i + 2))) / 3))
       in createMask pdata w h T ! (y * w + x) = (if real_of_int gray < T then 1 else 0))"
proof -
  have "length (createMask pdata w h T) = w * h"
    by (simp add: createMask_def length_fill_mask)
  moreover have "createMask pdata w h T ! (y * w + x) =
      (if real_of_int (if pdata ! ((y * w + x) * 4 + 3) = 0 then 255
                       else round (real (unat (pdata ! ((y * w + x) * 4))
                                         + unat (pdata ! ((y * w + x) * 4 + 1))
                                         + unat (pdata ! ((y * w + x) * 4 + 2))) / 3)) < T
       then 1 else 0)"
    if "x < w" "y < h" for x y
    using createMask_cell[OF that assms, of T] by (simp only: cell_of_def below_def option.case)
  ultimately show ?thesis by (simp only: Let_def) blast
qed

theorem mask_builder_cells_witness:
  "length [10, 20, 30, 255, 200, 200, 200, 255 :: byte] = 4 * 2 * 1 \<and>
   createMask [10, 20, 30, 255, 200, 200, 200, 255] 2 1 128 ! 0 = 1 \<and>
   createMask [10, 20, 30, 255, 200, 200, 200, 255] 2 1 128 ! 1 = 0"
proof -
  have len: "length [10, 20, 30, 255, 200, 200, 200, 255 :: byte] = 4 * 2 * 1" by simp
  from mask_builder_cells[OF len, of 128] have
    "\<forall>x<2. \<forall>y<1.
       let i = (y * 2 + x) * 4;
           gray = (if [10, 20, 30, 255, 200, 200, 200, 255 :: byte] ! (i + 3) = 0 then 255
                   else round (real (unat ([10, 20, 30, 255, 200, 200, 200, 255 :: byte] ! i)
                      + unat ([10, 20, 30, 255, 200, 200, 200, 255 :: byte] ! (i + 1))
                      + unat ([10, 20, 30, 255, 200, 200, 200, 255 :: byte] ! (i + 2))) / 3))
       in createMask [10, 20, 30, 255, 200, 200, 200, 255] 2 1 128 ! (y * 2 + x)
          = (if real_of_int gray < 128 then 1 else 0)"
    by blast
  then have c: "\<And>x. x < 2 \<Longrightarrow>
       (let i = x * 4;
           gray = (if [10, 20, 30, 255, 200, 200, 200, 255 :: byte] ! (i + 3) = 0 then 255
                   else round (real (unat ([10, 20, 30, 255, 200, 200, 200, 255 :: byte] ! i)
                      + unat ([10, 20, 30, 255, 200, 200, 200, 255 :: byte] ! (i + 1))
                      + unat ([10, 20, 30, 255, 200, 200, 200, 255 :: byte] ! (i + 2))) / 3))
       in createMask [10, 20, 30, 255, 200, 200, 200, 255] 2 1 128 ! x
          = (if real_of_int gray < 128 then 1 else 0))"
    by simp
  have r1: "round ((60::real) / 3) = 20" by (simp add: round_def)
  have r2: "round ((600::real) / 3) = 200" by (simp add: round_def)
  from c[of 0] have "createMask [10, 20, 30, 255, 200, 200, 200, 255] 2 1 128 ! 0 = 1"
    by (simp add: r1)
  moreover from c[of 1] have "createMask [10, 20, 30, 255, 200, 200, 200, 255] 2 1 128 ! 1 = 0"
    by (simp add: r2)
  ultimately show ?thesis using len by simp
qed



text \<open>
  C10 (the two extruders). On every mask whose cells are 0 or 1, of any width and height,
  and for every thickness and scale, \<open>generateTriangles\<close> of the browser file and the
  extruder of \<open>generate\<close> push the same triangles, with the same vertices, in the same order.
\<close>

theorem extruders_agree:
  assumes "\<forall>b \<in> set msk. b = 0 \<or> b = 1"
  shows "generateTriangles Z msk w h K = extrude msk w h Z K"
proof -
  have cellv: "byte_at msk k = None \<or> byte_at msk k = Some 0 \<or> byte_at msk k = Some 1" for k
  proof (cases "0 \<le> k \<and> k < int (length msk)")
    case True
    then have "nat k < length msk" by (simp add: nat_less_iff)
    then have "msk ! nat k \<in> set msk" by simp
    with assms have "msk ! nat k = 0 \<or> msk ! nat k = 1" by blast
    with True show ?thesis by (auto simp: byte_at_def)
  next
    case False
    then show ?thesis by (auto simp: byte_at_def)
  qed
  have inside: "idx_browser msk w h x y \<longleftrightarrow> \<not> falsy (byte_at msk (y * int w + x))"
    if "0 \<le> x" "x < int w" "0 \<le> y" "y < int h" for x y
    using that cellv[of "y * int w + x"] by (auto simp: idx_browser_def falsy_def)
  have outside: "\<not> idx_browser msk w h x y" if "x < 0 \<or> x \<ge> int w \<or> y < 0 \<or> y \<ge> int h" for x y
    using that by (auto simp: idx_browser_def)
  have "cell_browser msk w h Z K x y = cell_node msk w h Z K x y" if "x < w" "y < h" for x y
  proof -
    have c: "idx_browser msk w h (int x) (int y) \<longleftrightarrow> \<not> falsy (byte_at msk (int y * int w + int x))"
      using that by (simp add: inside)
    have l: "\<not> idx_browser msk w h (int x - 1) (int y) \<longleftrightarrow>
             x = 0 \<or> falsy (byte_at msk (idx w (int x - 1) (int y)))"
    proof (cases "x = 0")
      case True
      then show ?thesis by (simp add: outside)
    next
      case False
      with that show ?thesis by (simp add: inside idx_def)
    qed
    have r: "\<not> idx_browser msk w h (int x + 1) (int y) \<longleftrightarrow>
             int x = int w - 1 \<or> falsy (byte_at msk (idx w (int x + 1) (int y)))"
    proof (cases "int x = int w - 1")
      case True
      then show ?thesis by (simp add: outside)
    next
      case False
      with that show ?thesis by (simp add: inside idx_def)
    qed
    have b: "\<not> idx_browser msk w h (int x) (int y + 1) \<longleftrightarrow>
             int y = int h - 1 \<or> falsy (byte_at msk (idx w (int x) (int y + 1)))"
    proof (cases "int y = int h - 1")
      case True
      then show ?thesis by (simp add: outside)
    next
      case False
      with that show ?thesis by (simp add: inside idx_def)
    qed
    have t: "\<not> idx_browser msk w h (int x) (int y - 1) \<longleftrightarrow>
             y = 0 \<or> falsy (byte_at msk (idx w (int x) (int y - 1)))"
    proof (cases "y = 0")
      case True
      then show ?thesis by (simp add: outside)
    next
      case False
      with that show ?thesis by (simp add: inside idx_def)
    qed
    show ?thesis unfolding cell_browser_def cell_node_def by (simp only: c l r b t not_not)
  qed
  then show ?thesis unfolding generateTriangles_def extrude_def by (rule scan_cells_cong)
qed

theorem extruders_agree_witness:
  "generateTriangles 2 [1, 1, 0, 1] 2 2 (1 / 2) = extrude [1, 1, 0, 1] 2 2 2 (1 / 2)"
proof -
  have "\<forall>b \<in> set [1, 1, 0, 1 :: byte]. b = 0 \<or> b = 1" by simp
  then show ?thesis by (rule extruders_agree)
qed




text \<open>
  C4 (empty mask). When the mask that \<open>generate\<close> builds for its input has no foreground
  cell, \<open>generate\<close> raises the error for an empty result and leaves the file system as it
  was: no file is written, not even one of 84 bytes.
\<close>

theorem empty_mask_raises:
  assumes "generate_mask cfg env png options = (msk, maskW, maskH)"
    and "\<forall>k<length msk. msk ! k = 0"
  shows "generate cfg env files png options = (Inl EmptyResult, files)"
proof -
  from assms have "generate_triangles cfg env png options = []"
    by (simp add: generate_triangles_def Let_def extrude_background)
  then show ?thesis by (simp add: generate_def Let_def)
qed

theorem empty_mask_raises_witness:
  "generate_mask default_config no_env
     \<lparr>png_width = 1, png_height = 1, png_data = [255, 255, 255, 255]\<rparr> no_options = ([0], 1, 1) \<and>
   generate default_config no_env Map.empty
     \<lparr>png_width = 1, png_height = 1, png_data = [255, 255, 255, 255]\<rparr> no_options
     = (Inl EmptyResult, Map.empty)"
proof -
  have m: "generate_mask default_config no_env
     \<lparr>png_width = 1, png_height = 1, png_data = [255, 255, 255, 255]\<rparr> no_options = ([0], 1, 1)"
    by (rule white_pixel_mask)
  have z: "\<forall>k<length [0::byte]. [0::byte] ! k = 0" by simp
  from empty_mask_raises[OF m z] m show ?thesis by simp
qed






text \<open>
  C5 (scale invariance), at a failing input. A black image 1 pixel wide and 4 high,
  \<open>height_mm = 40\<close>, \<open>max_px = 2\<close>: the mask is resampled to 1 by 2 cells, the original
  scale is 10 mm per pixel and the effective scale is 10 mm per cell, since the code
  multiplies by \<open>origW / maskW = 1\<close>. The width is kept (10 mm), the height is not: the
  mesh is 2 * 10 = 20 mm high (its first triangle starts at \<open>y = 20\<close>), while the original
  scale times the original height, which is also what \<open>generate\<close> reports, is 40 mm.
\<close>

theorem height_driven_scale_example:
  "generate_mask default_config no_env tall_image tall_options = ([1, 1], 1, 2) \<and>
   original_scale default_config tall_options 1 4 = 10 \<and>
   effective_scale default_config tall_options 1 4 1 = 10 \<and>
   effective_scale default_config tall_options 1 4 1 * real 1 =
     original_scale default_config tall_options 1 4 * real 1 \<and>
   effective_scale default_config tall_options 1 4 1 * real 2 = 20 \<and>
   original_scale default_config tall_options 1 4 * real 4 = 40 \<and>
   length (generate_triangles default_config no_env tall_image tall_options) = 20 \<and>
   generate_triangles default_config no_env tall_image tall_options ! 0 =
     ((0, 20, 2), (10, 20, 2), (10, 10, 2)) \<and>
   fst (generate default_config no_env Map.empty tall_image tall_options) =
     Inr \<lparr>rep_output = ''output.stl'', rep_width_mm = 10, rep_height_mm = 40,
          rep_scale_mm_per_px = 10\<rparr>"
proof -
  let ?tris = "generate_triangles default_config no_env tall_image tall_options"
  have len: "length ?tris = 20" and first: "?tris ! 0 = ((0, 20, 2), (10, 20, 2), (10, 10, 2))"
    by (simp_all only: tall_image_triangles tall_image_extrusion)
  from len have "length ?tris < 2 ^ 32" by simp
  then have ser: "meshTrianglesToBinarySTL ?tris extruded_name = Some (stl_layout extruded_name ?tris)"
    by (rule serializer_layout)
  have w: "png_width tall_image = 1" "png_height tall_image = 4"
    by (simp_all add: tall_image_def)
  have out: "(case opt_output tall_options of
                Some p \<Rightarrow> if p = [] then OUTPUT default_config else p
              | None \<Rightarrow> OUTPUT default_config) = ''output.stl''"
    by (simp add: tall_options_def no_options_def default_config_def)
  from len have e0: "(length ?tris = 0) = False" by simp
  have "generate default_config no_env Map.empty tall_image tall_options =
     (Inr \<lparr>rep_output = ''output.stl'', rep_width_mm = real 1 * 10, rep_height_mm = real 4 * 10,
           rep_scale_mm_per_px = 10\<rparr>,
      Map.empty(''output.stl'' \<mapsto> stl_layout extruded_name ?tris))"
    unfolding generate_def Let_def w out tall_image_scales
    by (simp only: e0 if_False ser option.case)
  then have rep: "fst (generate default_config no_env Map.empty tall_image tall_options) =
     Inr \<lparr>rep_output = ''output.stl'', rep_width_mm = 10, rep_height_mm = 40,
          rep_scale_mm_per_px = 10\<rparr>"
    by simp
  have w1: "effective_scale default_config tall_options 1 4 1 * real 1 =
     original_scale default_config tall_options 1 4 * real 1"
    by (simp only: tall_image_scales)
  have "effective_scale default_config tall_options 1 4 1 * real 2 = 10 * real 2"
    by (simp only: tall_image_scales)
  then have h2: "effective_scale default_config tall_options 1 4 1 * real 2 = 20" by simp
  have "original_scale default_config tall_options 1 4 * real 4 = 10 * real 4"
    by (simp only: tall_image_scales)
  then have h4: "original_scale default_config tall_options 1 4 * real 4 = 40" by simp
  from tall_image_mask tall_image_scales(1) tall_image_scales(2) w1 h2 h4 len first rep
  show ?thesis by (intro conjI)
qed

end
